theory Spec2Isabelle
  imports Main
begin

section \<open>Python values seen by the Cartesian product functor\<close>

text \<open>
  The functor of \<^verbatim>\<open>sage/categories/cartesian_product.py\<close> looks at three things of
  an argument: its exact Python type (\<^verbatim>\<open>type(arg)\<close>), whether it is category-aware
  (has a \<^verbatim>\<open>category()\<close> accessor), and, through the callees it hands the argument
  to, its elements. The embedding keeps exactly these.
\<close>

datatype error = TypeError | AttributeError | EmptyJoin | DanglingReference | LibraryError string

text \<open>
  Python types. The four builtin containers are values of their own; a class derived
  from another one is \<open>PySubclass base name\<close>, every other class is \<open>PyClass name\<close>.
  Equality of \<open>pytype\<close> values is identity of Python type objects.
\<close>

datatype pytype =
    PyTuple
  | PyList
  | PySet
  | PyFrozenset
  | PySubclass pytype string
  | PyClass string

text \<open>
  Categories: a base category has a name and, when it is parametrised over a ring, its
  base ring; \<open>CartesianProductsCategory C\<close> is the instance of the class
  \<^verbatim>\<open>CartesianProductsCategory\<close> whose \<^verbatim>\<open>base_category()\<close> is \<open>C\<close>.
\<close>

datatype 'r category =
    Category string "'r option"
  | CartesianProductsCategory "'r category"

text \<open>
  Objects: \<open>Container t xs\<close> is an iterable without \<^verbatim>\<open>category()\<close>, of exact type
  \<open>t\<close>, yielding \<open>xs\<close> in iteration order; \<open>Opaque t\<close> is an object that is neither
  iterable nor category-aware; \<open>Parent C xs\<close> is a category-aware object of category
  \<open>C\<close> (with its elements, when it enumerates them); \<open>CartesianProduct sets C\<close> is what
  the constructor \<^verbatim>\<open>CartesianProduct(sets, C)\<close> of \<^verbatim>\<open>sage.sets.cartesian_product\<close>
  builds.
\<close>

datatype ('a, 'r) pyobj =
    Container pytype "'a list"
  | Opaque pytype
  | Parent "'r category" "'a list"
  | CartesianProduct "('a, 'r) pyobj list" "'r category"

fun type_of :: "('a, 'r) pyobj \<Rightarrow> pytype" where
  "type_of (Container t xs) = t"
| "type_of (Opaque t) = t"
| "type_of (Parent C xs) = PyClass ''Parent''"
| "type_of (CartesianProduct sets C) = PyClass ''CartesianProduct''"


text \<open>Line 19: \<^verbatim>\<open>native_python_containers = set([tuple, list, set, frozenset])\<close>.\<close>

definition native_python_containers :: "pytype set" where
  "native_python_containers = {PyTuple, PyList, PySet, PyFrozenset}"

definition Sets :: "'r category" where
  "Sets = Category ''Sets'' None"

section \<open>Calls into the rest of the library\<close>

text \<open>
  The callees of \<^verbatim>\<open>CartesianProductFunctor.__call__\<close> live in modules outside the
  files verified here. They may read and write process-wide state (caches,
  the construction registry) and they may raise. A call is therefore a function from
  the shared state to an outcome and the state it leaves behind.
\<close>

type_synonym ('x, 's) call = "'s \<Rightarrow> (error + 'x) \<times> 's"

text \<open>
  A list comprehension \<^verbatim>\<open>[f(a) for a in args]\<close>: the calls run left to right, and the
  first exception ends the comprehension and is its outcome.
\<close>

fun comprehension :: "('x \<Rightarrow> ('y, 's) call) \<Rightarrow> 'x list \<Rightarrow> ('y list, 's) call" where
  "comprehension f [] s = (Inr [], s)"
| "comprehension f (a # as) s =
     (case f a s of
        (Inl e, s') \<Rightarrow> (Inl e, s')
      | (Inr b, s') \<Rightarrow>
          (case comprehension f as s' of
             (Inl e, s'') \<Rightarrow> (Inl e, s'')
           | (Inr bs, s'') \<Rightarrow> (Inr (b # bs), s'')))"

section \<open>\<^verbatim>\<open>CartesianProductFunctor.__call__\<close>\<close>

text \<open>
  Lines 165 to 174. \<open>S_call\<close> is \<^verbatim>\<open>S(a, enumerated_set=True)\<close> with \<^verbatim>\<open>S = Sets()\<close>,
  \<open>super_call\<close> is the inherited \<^verbatim>\<open>CovariantFunctorialConstruction.__call__\<close>; both
  are parameters. \<^verbatim>\<open>Sets().CartesianProducts()\<close> is the \<^verbatim>\<open>CartesianProductsCategory\<close>
  instance over \<^verbatim>\<open>Sets()\<close> (the doctest of lines 182 to 186).
\<close>

definition CartesianProductFunctor_call ::
  "(('a, 'r) pyobj \<Rightarrow> (('a, 'r) pyobj, 's) call) \<Rightarrow>
   (('a, 'r) pyobj list \<Rightarrow> (('a, 'r) pyobj, 's) call) \<Rightarrow>
   ('a, 'r) pyobj list \<Rightarrow> (('a, 'r) pyobj, 's) call" where
  "CartesianProductFunctor_call S_call super_call args s =
     (if list_ex (\<lambda>arg. type_of arg \<in> native_python_containers) args then
        (case comprehension S_call args s of
           (Inl e, s') \<Rightarrow> (Inl e, s')
         | (Inr args', s') \<Rightarrow> super_call args' s')
      else if args = [] then
        (Inr (CartesianProduct [] (CartesianProductsCategory Sets)), s)
      else super_call args s)"

section \<open>\<^verbatim>\<open>CartesianProductsCategory\<close>\<close>

text \<open>
  Lines 204 to 218: \<^verbatim>\<open>CartesianProductsCategory.CartesianProducts\<close> is
  \<^verbatim>\<open>return self\<close>.
\<close>

definition CartesianProductsCategory_CartesianProducts :: "'r category \<Rightarrow> 'r category" where
  "CartesianProductsCategory_CartesianProducts self = self"

text \<open>
  Modelled from the spec: the attribute \<^verbatim>\<open>C.CartesianProducts()\<close> of a base category
  (defined in \<^verbatim>\<open>sage.categories.sets_cat\<close> and
  \<^verbatim>\<open>sage.categories.covariant_functorial_construction\<close>, outside the files verified
  here). "Each category may declare a nested sub-definition per known construction
  name, which, when present, becomes the category assigned to objects built by that
  construction"; without one the construction is undefined and the failure is a type
  error. \<open>nested\<close> tells which base categories declare the nested class. On an instance
  of \<^verbatim>\<open>CartesianProductsCategory\<close> the attribute is the method above.
\<close>

fun CartesianProducts :: "('r category \<Rightarrow> bool) \<Rightarrow> 'r category \<Rightarrow> error + 'r category" where
  "CartesianProducts nested (CartesianProductsCategory C) =
     Inr (CartesianProductsCategory_CartesianProducts (CartesianProductsCategory C))"
| "CartesianProducts nested (Category name R) =
     (if nested (Category name R) then Inr (CartesianProductsCategory (Category name R))
      else Inl TypeError)"

text \<open>
  Modelled from the spec: \<^verbatim>\<open>base_category()\<close> of
  \<^verbatim>\<open>CovariantConstructionCategory\<close> (outside the files verified here), which "returns
  the originating (non-constructed) category" (see also the doctest of lines 185 and
  186); a base category has no such attribute.
\<close>

fun base_category :: "'r category \<Rightarrow> error + 'r category" where
  "base_category (CartesianProductsCategory C) = Inr C"
| "base_category (Category name R) = Inl AttributeError"

text \<open>
  \<^verbatim>\<open>base_ring()\<close>. Lines 220 to 229 for a constructed category:
  \<^verbatim>\<open>return self.base_category().base_ring()\<close>. A base category answers with the ring
  it is parametrised over, and has no \<^verbatim>\<open>base_ring\<close> when there is none.
\<close>

fun base_ring :: "'r category \<Rightarrow> error + 'r" where
  "base_ring (CartesianProductsCategory C) =
     (case base_category (CartesianProductsCategory C) of
        Inl e \<Rightarrow> Inl e
      | Inr B \<Rightarrow> base_ring B)"
| "base_ring (Category name (Some R)) = Inr R"
| "base_ring (Category name None) = Inl AttributeError"

section \<open>The callees, as the specification describes them\<close>









section \<open>The abelian Lie algebra example\<close>

text \<open>
  \<^verbatim>\<open>sage/categories/examples/finite_dimensional_lie_algebras_with_basis.py\<close>. An
  \<^verbatim>\<open>AbelianLieAlgebra\<close> is a Python object with identity: its \<^verbatim>\<open>_ambient\<close> field
  refers to an algebra (possibly to itself), and the class keeps a cache of its
  instances. Instances therefore live in a store and are named by their address.

  Rings, modules and vectors come from the library (\<^verbatim>\<open>sage.modules.free_module\<close>,
  outside the files verified here). The operations of theirs that the example calls are
  parameters: \<^verbatim>\<open>FreeModule(R, n)\<close> (where \<open>n\<close> may be \<^verbatim>\<open>None\<close>),
  \<^verbatim>\<open>M.change_ring(R)\<close>, \<^verbatim>\<open>M.subspace(gens)\<close> and \<^verbatim>\<open>M.zero()\<close>. The first three
  may raise.
\<close>

record ('r, 'm, 'v) modules =
  FreeModule :: "'r \<Rightarrow> nat option \<Rightarrow> error + 'm"
  change_ring :: "'m \<Rightarrow> 'r \<Rightarrow> error + 'm"
  subspace :: "'m \<Rightarrow> 'v list \<Rightarrow> error + 'm"
  module_zero :: "'m \<Rightarrow> 'v"

type_synonym addr = nat

text \<open>
  \<^verbatim>\<open>LieAlgebras(R).FiniteDimensional().WithBasis()\<close> and its \<^verbatim>\<open>Subobjects()\<close>.
\<close>

datatype 'r lie_category =
    FiniteDimensionalLieAlgebrasWithBasis 'r
  | Subobjects "'r lie_category"

text \<open>An element: its parent algebra and the wrapped vector.\<close>

record 'v element =
  parent_of :: addr
  value_of :: 'v

text \<open>
  The fields of an instance: \<^verbatim>\<open>_M\<close> and \<^verbatim>\<open>_ambient\<close> (lines 87 and 93), the base ring
  and the category handed to \<^verbatim>\<open>Parent.__init__\<close> (line 94), and the slot in which
  \<^verbatim>\<open>@cached_method\<close> keeps the result of \<^verbatim>\<open>zero()\<close> (line 139).
\<close>

record ('r, 'm, 'v) lie_algebra =
  self_M :: 'm
  self_ambient :: addr
  self_base :: 'r
  self_category :: "'r lie_category"
  zero_cached :: "'v element option"

text \<open>
  The key under which an instance is cached: the arguments \<open>(R, n, M, ambient)\<close> of
  \<^verbatim>\<open>__classcall__\<close>.
\<close>

type_synonym ('r, 'm) key = "'r \<times> nat option \<times> 'm \<times> addr option"

record ('r, 'm, 'v) state =
  instances :: "('r, 'm, 'v) lie_algebra list"
  cache :: "('r, 'm) key \<rightharpoonup> addr"

definition initial :: "('r, 'm, 'v) state" where
  "initial = \<lparr>instances = [], cache = Map.empty\<rparr>"

text \<open>
  Following a reference. A Python reference always leads to an object; an address
  outside the store is answered with \<open>DanglingReference\<close>, which no Python run reaches.
\<close>

definition lookup :: "('r, 'm, 'v) state \<Rightarrow> addr \<Rightarrow> error + ('r, 'm, 'v) lie_algebra" where
  "lookup st a = (if a < length (instances st) then Inr (instances st ! a) else Inl DanglingReference)"

text \<open>
  Lines 80 to 94, \<^verbatim>\<open>__init__(self, R, n=None, M=None, ambient=None)\<close>: a top-level
  algebra is its own ambient, a subalgebra is in the category of subobjects.
\<close>

fun AbelianLieAlgebra_init :: "addr \<Rightarrow> ('r, 'm) key \<Rightarrow> ('r, 'm, 'v) lie_algebra" where
  "AbelianLieAlgebra_init self (R, n, M, ambient) =
     \<lparr>self_M = M,
      self_ambient = (case ambient of None \<Rightarrow> self | Some A \<Rightarrow> A),
      self_base = R,
      self_category =
        (case ambient of
           None \<Rightarrow> FiniteDimensionalLieAlgebrasWithBasis R
         | Some A \<Rightarrow> Subobjects (FiniteDimensionalLieAlgebrasWithBasis R)),
      zero_cached = None\<rparr>"

text \<open>
  Modelled from the spec: \<^verbatim>\<open>UniqueRepresentation.__classcall__\<close>
  (\<^verbatim>\<open>sage.structure.unique_representation\<close>, outside the files verified
  here). An object is
  "uniquely represented (two calls with equal normalized arguments must return the
  identical cached instance)": a call whose arguments are in the cache returns the cached
  instance; otherwise a new object is allocated, initialised by \<^verbatim>\<open>__init__\<close> with these
  arguments and entered into the cache. (An instance stays cached as long as something
  refers to it; eviction of unreferenced instances is not modelled.)
\<close>

definition classcall :: "('r, 'm, 'v) state \<Rightarrow> ('r, 'm) key \<Rightarrow> addr \<times> ('r, 'm, 'v) state" where
  "classcall st k =
     (case cache st k of
        Some a \<Rightarrow> (a, st)
      | None \<Rightarrow>
          (let self = length (instances st)
           in (self, \<lparr>instances = instances st @ [AbelianLieAlgebra_init self k],
                      cache = (cache st)(k \<mapsto> self)\<rparr>)))"

text \<open>
  Lines 74 to 78, \<^verbatim>\<open>__classcall_private__(cls, R, n=None, M=None, ambient=None)\<close>.
  First the module is normalised (lines 74 to 77), then \<^verbatim>\<open>__classcall__\<close> is called with
  \<^verbatim>\<open>n=None\<close> (line 78).
\<close>

definition normalized_M ::
  "('r, 'm, 'v) modules \<Rightarrow> 'r \<Rightarrow> nat option \<Rightarrow> 'm option \<Rightarrow> error + 'm" where
  "normalized_M lib R n M =
     (case M of
        None \<Rightarrow> FreeModule lib R n
      | Some M' \<Rightarrow> change_ring lib M' R)"

definition classcall_private ::
  "('r, 'm, 'v) modules \<Rightarrow> 'r \<Rightarrow> nat option \<Rightarrow> 'm option \<Rightarrow> addr option \<Rightarrow>
   (addr, ('r, 'm, 'v) state) call" where
  "classcall_private lib R n M ambient st =
     (case normalized_M lib R n M of
        Inl e \<Rightarrow> (Inl e, st)
      | Inr M' \<Rightarrow>
          (case classcall st (R, None, M', ambient) of
             (a, st') \<Rightarrow> (Inr a, st')))"

text \<open>
  Lines 139 to 150, \<^verbatim>\<open>zero\<close>, a \<^verbatim>\<open>@cached_method\<close>: the first call builds
  \<^verbatim>\<open>self.element_class(self, self._M.zero())\<close> and keeps it on the instance, later
  calls return what was kept.
\<close>

definition AbelianLieAlgebra_zero ::
  "('r, 'm, 'v) modules \<Rightarrow> addr \<Rightarrow> ('v element, ('r, 'm, 'v) state) call" where
  "AbelianLieAlgebra_zero lib self st =
     (case lookup st self of
        Inl e \<Rightarrow> (Inl e, st)
      | Inr L \<Rightarrow>
          (case zero_cached L of
             Some z \<Rightarrow> (Inr z, st)
           | None \<Rightarrow>
               (let z = \<lparr>parent_of = self, value_of = module_zero lib (self_M L)\<rparr>
                in (Inr z, st\<lparr>instances := (instances st)[self := L\<lparr>zero_cached := Some z\<rparr>]\<rparr>))))"

text \<open>Lines 166 to 178, \<^verbatim>\<open>ambient\<close>, and \<^verbatim>\<open>base_ring\<close> of \<^verbatim>\<open>Parent\<close>.\<close>

definition ambient :: "addr \<Rightarrow> ('r, 'm, 'v) state \<Rightarrow> error + addr" where
  "ambient self st = (case lookup st self of Inl e \<Rightarrow> Inl e | Inr L \<Rightarrow> Inr (self_ambient L))"

definition algebra_base_ring :: "addr \<Rightarrow> ('r, 'm, 'v) state \<Rightarrow> error + 'r" where
  "algebra_base_ring self st = (case lookup st self of Inl e \<Rightarrow> Inl e | Inr L \<Rightarrow> Inr (self_base L))"

text \<open>
  Lines 198 and 199, \<^verbatim>\<open>subalgebra(self, gens)\<close>:
  \<^verbatim>\<open>N = self._M.subspace([g.value for g in gens])\<close>, then
  \<^verbatim>\<open>AbelianLieAlgebra(self.base_ring(), M=N, ambient=self._ambient)\<close>.
\<close>

definition subalgebra ::
  "('r, 'm, 'v) modules \<Rightarrow> addr \<Rightarrow> 'v element list \<Rightarrow> (addr, ('r, 'm, 'v) state) call" where
  "subalgebra lib self gens st =
     (case lookup st self of
        Inl e \<Rightarrow> (Inl e, st)
      | Inr L \<Rightarrow>
          (case subspace lib (self_M L) (map value_of gens) of
             Inl e \<Rightarrow> (Inl e, st)
           | Inr N \<Rightarrow> classcall_private lib (self_base L) None (Some N) (Some (self_ambient L)) st))"

text \<open>Lines 286 to 299, \<^verbatim>\<open>Element._bracket_(self, y)\<close>: \<^verbatim>\<open>return self.parent().zero()\<close>.\<close>

definition bracket ::
  "('r, 'm, 'v) modules \<Rightarrow> 'v element \<Rightarrow> 'v element \<Rightarrow> ('v element, ('r, 'm, 'v) state) call" where
  "bracket lib self y st = AbelianLieAlgebra_zero lib (parent_of self) st"

text \<open>
  The states that calls of the class produce. Every cached key leads to an instance in
  the store whose fields are those \<^verbatim>\<open>__init__\<close> gave it for that key; every instance
  in the store was created through the cache; and a kept zero is the zero of the
  instance that keeps it.
\<close>

definition wf :: "('r, 'm, 'v) modules \<Rightarrow> ('r, 'm, 'v) state \<Rightarrow> bool" where
  "wf lib st \<longleftrightarrow>
     (\<forall>k a. cache st k = Some a \<longrightarrow>
        a < length (instances st) \<and>
        (instances st ! a)\<lparr>zero_cached := None\<rparr> = AbelianLieAlgebra_init a k)
     \<and> (\<forall>a < length (instances st). \<exists>k. cache st k = Some a)
     \<and> (\<forall>a < length (instances st). \<forall>z. zero_cached (instances st ! a) = Some z \<longrightarrow>
          z = \<lparr>parent_of = a, value_of = module_zero lib (self_M (instances st ! a))\<rparr>)"

text \<open>
  An instance of the library's operations, to run the definitions on concrete inputs: a
  module is its ring, its degree and a list of vectors that span it. \<open>subspace\<close> keeps
  the generators as they are given (the library would reduce them to echelon form), and
  \<^verbatim>\<open>FreeModule(R, None)\<close> raises.
\<close>

definition spanned_modules :: "(string, string \<times> nat \<times> int list list, int list) modules" where
  "spanned_modules =
     \<lparr>FreeModule = (\<lambda>R n. case n of
          None \<Rightarrow> Inl TypeError
        | Some d \<Rightarrow> Inr (R, d, map (\<lambda>i. (replicate d 0)[i := 1]) [0..<d])),
      change_ring = (\<lambda>M R. case M of (R', d, B) \<Rightarrow> Inr (R, d, B)),
      subspace = (\<lambda>M gens. case M of (R, d, B) \<Rightarrow> Inr (R, d, gens)),
      module_zero = (\<lambda>M. case M of (R, d, B) \<Rightarrow> replicate d 0)\<rparr>"

text \<open>
  The state after \<^verbatim>\<open>AbelianLieAlgebra(QQ, 3)\<close>, the example of the doctests, has been
  constructed in the initial state.
\<close>

definition example :: "(string, string \<times> nat \<times> int list list, int list) state" where
  "example = snd (classcall_private spanned_modules ''QQ'' (Some 3) None None initial)"

section \<open>Properties of the Cartesian product functor\<close>

text \<open>A wrapper that records each argument it is given, in order.\<close>

lemma comprehension_log:
  "comprehension (\<lambda>a log. (Inr (w a), log @ [a])) args log = (Inr (map w args), log @ args)"
  by (induction args arbitrary: log) simp_all




subsection \<open>The empty product\<close>

text \<open>
  C1. On the empty argument list the functor returns, whatever the shared state left by
  earlier calls, the object \<^verbatim>\<open>CartesianProduct((), Sets().CartesianProducts())\<close>: its
  factors are the empty tuple and its category is the Cartesian products category over
  \<open>Sets\<close>. The state is returned as it was found, and the outcome is the same for every
  wrapper and every generic path, also for one that always raises: neither is called.
\<close>

theorem empty_product_short_circuit:
  "CartesianProductFunctor_call S_call super_call [] s =
     (Inr (CartesianProduct [] (CartesianProductsCategory Sets)), s)"
  by (simp add: CartesianProductFunctor_call_def)

theorem empty_product_short_circuit_witness:
  "CartesianProductFunctor_call
     (\<lambda>a s. (Inl TypeError, Suc s)) (\<lambda>args s. (Inl TypeError, Suc s)) [] (7::nat) =
     (Inr (CartesianProduct [] (CartesianProductsCategory Sets) :: (int, string) pyobj), 7)"
  by (rule empty_product_short_circuit)

subsection \<open>Plain containers\<close>






text \<open>
  C8. The coercion is decided by the exact type of the arguments. If the type of some
  argument is exactly \<^verbatim>\<open>tuple\<close>, \<^verbatim>\<open>list\<close>, \<^verbatim>\<open>set\<close> or \<^verbatim>\<open>frozenset\<close>, every
  argument goes through the wrapper (a wrapper that records its arguments has recorded
  all of \<open>args\<close>, category-aware ones included, when the functor returns). Otherwise the
  wrapper is not called: the outcome does not depend on it and the recording wrapper has
  recorded nothing. Arguments whose types are classes derived from the four do not
  trigger the coercion.
\<close>

theorem coercion_triggered_by_exact_type:
  fixes S_call S_call' :: "('a, 'r) pyobj \<Rightarrow> (('a, 'r) pyobj, 's) call"
    and w :: "('a, 'r) pyobj \<Rightarrow> ('a, 'r) pyobj"
  shows
  "((\<exists>arg \<in> set args. type_of arg = PyTuple \<or> type_of arg = PyList \<or>
        type_of arg = PySet \<or> type_of arg = PyFrozenset) \<longrightarrow>
      CartesianProductFunctor_call S_call super_call args s =
        (case comprehension S_call args s of
           (Inl e, s') \<Rightarrow> (Inl e, s')
         | (Inr sets, s') \<Rightarrow> super_call sets s')
      \<and> snd (CartesianProductFunctor_call (\<lambda>a log. (Inr (w a), log @ [a]))
               (\<lambda>sets log. (g sets, log)) args log) = log @ args)
   \<and> (\<not> (\<exists>arg \<in> set args. type_of arg = PyTuple \<or> type_of arg = PyList \<or>
        type_of arg = PySet \<or> type_of arg = PyFrozenset) \<longrightarrow>
      CartesianProductFunctor_call S_call super_call args s =
        CartesianProductFunctor_call S_call' super_call args s
      \<and> snd (CartesianProductFunctor_call (\<lambda>a log. (Inr (w a), log @ [a]))
               (\<lambda>sets log. (g sets, log)) args log) = log)
   \<and> ((\<forall>arg \<in> set args. \<exists>t name. type_of arg = PySubclass t name) \<longrightarrow>
      CartesianProductFunctor_call S_call super_call args s =
        CartesianProductFunctor_call S_call' super_call args s)"
proof -
  let ?trigger = "\<exists>arg \<in> set args. type_of arg = PyTuple \<or> type_of arg = PyList \<or>
        type_of arg = PySet \<or> type_of arg = PyFrozenset"
  have guard: "list_ex (\<lambda>arg. type_of arg \<in> native_python_containers) args \<longleftrightarrow> ?trigger"
    by (auto simp: list_ex_iff native_python_containers_def)
  have derived: "\<not> ?trigger" if "\<forall>arg \<in> set args. \<exists>t name. type_of arg = PySubclass t name"
    using that by fastforce
  show ?thesis
    unfolding CartesianProductFunctor_call_def guard
    using derived by (simp add: comprehension_log)
qed

theorem coercion_triggered_by_exact_type_witness:
  "snd (CartesianProductFunctor_call (\<lambda>a log. (Inr a, log @ [a])) (\<lambda>sets log. (Inl TypeError, log))
      [Parent Sets [1], Container PyList [2 :: int]] []) =
     [Parent (Sets :: string category) [1], Container PyList [2]]
   \<and> snd (CartesianProductFunctor_call (\<lambda>a log. (Inr a, log @ [a])) (\<lambda>sets log. (Inl TypeError, log))
      [Parent Sets [1], Container (PySubclass PyList ''MyList'') [2 :: int]] []) =
     ([] :: (int, string) pyobj list)"
  using coercion_triggered_by_exact_type
    [of "[Parent Sets [1], Container PyList [2 :: int]]" "\<lambda>a log. (Inr a, log @ [a])"
        "\<lambda>sets log. (Inl TypeError, log)" "[] :: (int, string) pyobj list"
        "\<lambda>a. a" "\<lambda>sets. Inl TypeError" "[]" "\<lambda>a log. (Inr a, log @ [a])"]
    coercion_triggered_by_exact_type
    [of "[Parent Sets [1], Container (PySubclass PyList ''MyList'') [2 :: int]]" "\<lambda>a log. (Inr a, log @ [a])"
        "\<lambda>sets log. (Inl TypeError, log)" "[] :: (int, string) pyobj list"
        "\<lambda>a. a" "\<lambda>sets. Inl TypeError" "[]" "\<lambda>a log. (Inr a, log @ [a])"]
  by simp

subsection \<open>Malformed arguments\<close>





section \<open>Properties of \<^verbatim>\<open>CartesianProductsCategory\<close>\<close>

text \<open>
  C3. Constructing the construction changes nothing: whenever \<open>C.CartesianProducts()\<close>
  is defined, applying \<open>CartesianProducts()\<close> to it returns it again; and on every
  instance of \<^verbatim>\<open>CartesianProductsCategory\<close> the accessor returns that instance.
\<close>

theorem construction_of_construction:
  "(CartesianProducts nested C = Inr D \<longrightarrow> CartesianProducts nested D = Inr D)
   \<and> CartesianProducts nested (CartesianProductsCategory B) = Inr (CartesianProductsCategory B)"
  by (cases C) (auto simp: CartesianProductsCategory_CartesianProducts_def split: if_splits)

theorem construction_of_construction_witness:
  "CartesianProducts (\<lambda>C. True) (Category ''Monoids'' None :: string category)
     = Inr (CartesianProductsCategory (Category ''Monoids'' None))
   \<and> CartesianProducts (\<lambda>C. True) (CartesianProductsCategory (Category ''Monoids'' None :: string category))
     = Inr (CartesianProductsCategory (Category ''Monoids'' None))"
  using construction_of_construction
    [of "\<lambda>C. True" "Category ''Monoids'' None :: string category"
        "CartesianProductsCategory (Category ''Monoids'' None)" "Category ''Monoids'' None"]
  by simp

text \<open>
  C7. The base ring of a constructed category is the base ring of its base category:
  when \<open>C\<close> supports the construction and has the base ring \<open>R\<close>, then
  \<open>C.CartesianProducts().base_ring()\<close> is \<open>R\<close>.
\<close>

theorem base_ring_delegates:
  assumes "CartesianProducts nested C = Inr D" and "base_ring C = Inr R"
  shows "base_ring D = Inr R"
  using assms
  by (cases C) (auto simp: CartesianProductsCategory_CartesianProducts_def split: if_splits)

theorem base_ring_delegates_witness:
  "base_ring (CartesianProductsCategory (Category ''Algebras'' (Some ''ZZ''))) = Inr ''ZZ''"
  using base_ring_delegates
    [of "\<lambda>C. True" "Category ''Algebras'' (Some ''ZZ'')"
        "CartesianProductsCategory (Category ''Algebras'' (Some ''ZZ''))" "''ZZ''"]
  by simp

section \<open>Properties of the abelian Lie algebra example\<close>

subsection \<open>The states of the class\<close>

text \<open>
  The invariant holds before any call and is kept by the constructor and by
  \<^verbatim>\<open>zero()\<close>; the constructor never removes a cache entry nor touches an existing
  instance.
\<close>

lemma wf_initial: "wf lib initial"
  by (simp add: wf_def initial_def)

lemma classcall_hit:
  "cache st k = Some a \<Longrightarrow> classcall st k = (a, st)"
  by (simp add: classcall_def)

lemma classcall_cached:
  "classcall st k = (a, st') \<Longrightarrow> cache st' k = Some a"
  by (auto simp: classcall_def Let_def split: option.splits)

lemma classcall_cache_kept:
  "classcall st k = (a, st') \<Longrightarrow> cache st k' = Some b \<Longrightarrow> cache st' k' = Some b"
  by (auto simp: classcall_def Let_def split: option.splits)

lemma classcall_instances_kept:
  "classcall st k = (a, st') \<Longrightarrow> b < length (instances st) \<Longrightarrow>
   b < length (instances st') \<and> instances st' ! b = instances st ! b"
  by (auto simp: classcall_def Let_def nth_append split: option.splits)

lemma wf_classcall:
  assumes "wf lib st" and "classcall st k = (a, st')"
  shows "wf lib st'"
proof (cases "cache st k")
  case (Some b)
  with assms show ?thesis by (simp add: classcall_def)
next
  case None
  let ?n = "length (instances st)"
  from None assms(2) have st': "st' = \<lparr>instances = instances st @ [AbelianLieAlgebra_init ?n k],
      cache = (cache st)(k \<mapsto> ?n)\<rparr>"
    by (auto simp: classcall_def Let_def)
  have new: "(AbelianLieAlgebra_init ?n k :: ('a, 'b, 'c) lie_algebra)\<lparr>zero_cached := None\<rparr>
      = AbelianLieAlgebra_init ?n k"
    by (cases k) simp
  have newz: "zero_cached (AbelianLieAlgebra_init ?n k :: ('a, 'b, 'c) lie_algebra) = None"
    by (cases k) simp
  from assms(1) have
    c1: "\<And>k' b. cache st k' = Some b \<Longrightarrow> b < ?n \<and>
        (instances st ! b)\<lparr>zero_cached := None\<rparr> = AbelianLieAlgebra_init b k'"
    and c2: "\<And>b. b < ?n \<Longrightarrow> \<exists>k'. cache st k' = Some b"
    and c3: "\<And>b z. b < ?n \<Longrightarrow> zero_cached (instances st ! b) = Some z \<Longrightarrow>
        z = \<lparr>parent_of = b, value_of = module_zero lib (self_M (instances st ! b))\<rparr>"
    unfolding wf_def by blast+
  have g1: "\<forall>k' b. cache st' k' = Some b \<longrightarrow> b < length (instances st') \<and>
      (instances st' ! b)\<lparr>zero_cached := None\<rparr> = AbelianLieAlgebra_init b k'"
  proof (intro allI impI)
    fix k' b assume h: "cache st' k' = Some b"
    show "b < length (instances st') \<and>
      (instances st' ! b)\<lparr>zero_cached := None\<rparr> = AbelianLieAlgebra_init b k'"
    proof (cases "k' = k")
      case True
      with h st' have "b = ?n" by simp
      with True st' new show ?thesis by simp
    next
      case False
      with h st' have "cache st k' = Some b" by simp
      from c1[OF this] st' show ?thesis by (simp add: nth_append)
    qed
  qed
  have g2: "\<forall>b < length (instances st'). \<exists>k'. cache st' k' = Some b"
  proof (intro allI impI)
    fix b assume "b < length (instances st')"
    with st' have "b < ?n \<or> b = ?n" by auto
    then show "\<exists>k'. cache st' k' = Some b"
    proof
      assume "b < ?n"
      from c2[OF this] obtain k' where k': "cache st k' = Some b" by blast
      with None have "k' \<noteq> k" by auto
      with k' st' have "cache st' k' = Some b" by simp
      then show ?thesis by blast
    next
      assume "b = ?n"
      with st' have "cache st' k = Some b" by simp
      then show ?thesis by blast
    qed
  qed
  have g3: "\<forall>b < length (instances st'). \<forall>z. zero_cached (instances st' ! b) = Some z \<longrightarrow>
      z = \<lparr>parent_of = b, value_of = module_zero lib (self_M (instances st' ! b))\<rparr>"
  proof (intro allI impI)
    fix b z assume b: "b < length (instances st')" and z: "zero_cached (instances st' ! b) = Some z"
    from b st' have "b < ?n \<or> b = ?n" by auto
    then show "z = \<lparr>parent_of = b, value_of = module_zero lib (self_M (instances st' ! b))\<rparr>"
    proof
      assume lt: "b < ?n"
      with z st' have "zero_cached (instances st ! b) = Some z" by (simp add: nth_append)
      from c3[OF lt this] lt st' show ?thesis by (simp add: nth_append)
    next
      assume "b = ?n"
      with z st' newz show ?thesis by simp
    qed
  qed
  from g1 g2 g3 show ?thesis unfolding wf_def by blast
qed

lemma wf_classcall_private:
  "wf lib st \<Longrightarrow> classcall_private lib R n M amb st = (r, st') \<Longrightarrow> wf lib st'"
  by (auto simp: classcall_private_def split: sum.splits prod.splits dest: wf_classcall)

subsection \<open>The zero element\<close>

lemma lookup_Inr:
  "lookup st a = Inr l \<longleftrightarrow> a < length (instances st) \<and> instances st ! a = l"
  by (simp add: lookup_def)

lemma zero_returns:
  assumes "wf lib st" and "lookup st L = Inr l"
  shows "\<exists>st1. AbelianLieAlgebra_zero lib L st =
            (Inr \<lparr>parent_of = L, value_of = module_zero lib (self_M l)\<rparr>, st1)
          \<and> lookup st1 L =
            Inr (l\<lparr>zero_cached := Some \<lparr>parent_of = L, value_of = module_zero lib (self_M l)\<rparr>\<rparr>)"
proof (cases "zero_cached l")
  case None
  with assms(2) show ?thesis
    by (auto simp: AbelianLieAlgebra_zero_def Let_def lookup_def split: if_splits)
next
  case (Some z)
  from assms(2) have L: "L < length (instances st)" "instances st ! L = l"
    by (simp_all add: lookup_Inr)
  with assms(1) Some have z: "z = \<lparr>parent_of = L, value_of = module_zero lib (self_M l)\<rparr>"
    unfolding wf_def by blast
  from Some have "l\<lparr>zero_cached := Some z\<rparr> = l" by simp
  with assms(2) Some z show ?thesis
    by (simp add: AbelianLieAlgebra_zero_def)
qed

lemma wf_zero:
  assumes "wf lib st" and "AbelianLieAlgebra_zero lib L st = (r, st')"
  shows "wf lib st'"
proof (cases "lookup st L")
  case (Inl e)
  with assms show ?thesis by (simp add: AbelianLieAlgebra_zero_def)
next
  case (Inr l)
  then have L: "L < length (instances st)" "instances st ! L = l"
    by (simp_all add: lookup_Inr)
  show ?thesis
  proof (cases "zero_cached l")
    case (Some z)
    with Inr assms show ?thesis by (simp add: AbelianLieAlgebra_zero_def)
  next
    case None
    let ?z = "\<lparr>parent_of = L, value_of = module_zero lib (self_M l)\<rparr>"
    from None Inr assms(2) have st': "st' = st\<lparr>instances := (instances st)[L := l\<lparr>zero_cached := Some ?z\<rparr>]\<rparr>"
      by (auto simp: AbelianLieAlgebra_zero_def Let_def)
    have nth: "instances st' ! b = (if b = L then l\<lparr>zero_cached := Some ?z\<rparr> else instances st ! b)"
      if "b < length (instances st)" for b
      using that st' by (simp add: nth_list_update)
    have len: "length (instances st') = length (instances st)" and ca: "cache st' = cache st"
      using st' by simp_all
    from assms(1) have
      c1: "\<And>k' b. cache st k' = Some b \<Longrightarrow> b < length (instances st) \<and>
          (instances st ! b)\<lparr>zero_cached := None\<rparr> = AbelianLieAlgebra_init b k'"
      and c2: "\<And>b. b < length (instances st) \<Longrightarrow> \<exists>k'. cache st k' = Some b"
      and c3: "\<And>b z. b < length (instances st) \<Longrightarrow> zero_cached (instances st ! b) = Some z \<Longrightarrow>
          z = \<lparr>parent_of = b, value_of = module_zero lib (self_M (instances st ! b))\<rparr>"
      unfolding wf_def by blast+
    have g1: "\<forall>k' b. cache st' k' = Some b \<longrightarrow> b < length (instances st') \<and>
        (instances st' ! b)\<lparr>zero_cached := None\<rparr> = AbelianLieAlgebra_init b k'"
    proof (intro allI impI)
      fix k' b assume "cache st' k' = Some b"
      with ca have "cache st k' = Some b" by simp
      from c1[OF this] L show "b < length (instances st') \<and>
        (instances st' ! b)\<lparr>zero_cached := None\<rparr> = AbelianLieAlgebra_init b k'"
        by (auto simp: len nth)
    qed
    have g2: "\<forall>b < length (instances st'). \<exists>k'. cache st' k' = Some b"
      using c2 by (simp add: len ca)
    have g3: "\<forall>b < length (instances st'). \<forall>z. zero_cached (instances st' ! b) = Some z \<longrightarrow>
        z = \<lparr>parent_of = b, value_of = module_zero lib (self_M (instances st' ! b))\<rparr>"
      using c3 L by (auto simp: len nth)
    from g1 g2 g3 show ?thesis unfolding wf_def by blast
  qed
qed

lemma wf_bracket:
  "wf lib st \<Longrightarrow> bracket lib x y st = (r, st') \<Longrightarrow> wf lib st'"
  unfolding bracket_def by (rule wf_zero)

lemma wf_subalgebra:
  assumes "wf lib st" and "subalgebra lib L gens st = (r, st')"
  shows "wf lib st'"
proof (cases "lookup st L")
  case (Inl e)
  with assms show ?thesis by (simp add: subalgebra_def)
next
  case (Inr l)
  show ?thesis
  proof (cases "subspace lib (self_M l) (map value_of gens)")
    case (Inl e)
    with Inr assms show ?thesis by (simp add: subalgebra_def)
  next
    case N: (Inr N)
    with Inr assms(2)
    have "classcall_private lib (self_base l) None (Some N) (Some (self_ambient l)) st = (r, st')"
      by (simp add: subalgebra_def)
    with assms(1) show ?thesis by (rule wf_classcall_private)
  qed
qed

subsection \<open>The library instance and the example algebra\<close>

text \<open>The library instance on the inputs of the examples.\<close>

lemma spanned_FreeModule_2:
  "FreeModule spanned_modules ''QQ'' (Some 2) = Inr (''QQ'', 2, [[1, 0], [0, 1]])"
  by (simp add: spanned_modules_def upt_rec numeral_2_eq_2)

lemma spanned_FreeModule_3:
  "FreeModule spanned_modules ''QQ'' (Some 3) = Inr (''QQ'', 3, [[1, 0, 0], [0, 1, 0], [0, 0, 1]])"
  by (simp add: spanned_modules_def upt_rec numeral_3_eq_3)

lemma spanned_change_ring:
  "change_ring spanned_modules (R', d, B) R = Inr (R, d, B)"
  by (simp add: spanned_modules_def)

lemma spanned_subspace:
  "subspace spanned_modules (R, d, B) gens = Inr (R, d, gens)"
  by (simp add: spanned_modules_def)

text \<open>The example algebra of the doctests, of rank 3 over \<open>QQ\<close>.\<close>

lemma spanned_module_zero_3:
  "module_zero spanned_modules (R, 3, B) = [0, 0, 0]"
  by (simp add: spanned_modules_def numeral_3_eq_3)

lemma example_eq:
  "classcall_private spanned_modules ''QQ'' (Some 3) None None initial = (Inr 0, example)"
  by (simp add: example_def classcall_private_def normalized_M_def spanned_FreeModule_3
      classcall_def initial_def)

lemma wf_example: "wf spanned_modules example"
  using wf_classcall_private[OF wf_initial example_eq] .

lemma lookup_example:
  "lookup example 0 = Inr \<lparr>self_M = (''QQ'', 3, [[1, 0, 0], [0, 1, 0], [0, 0, 1]]), self_ambient = 0,
      self_base = ''QQ'', self_category = FiniteDimensionalLieAlgebrasWithBasis ''QQ'',
      zero_cached = None\<rparr>"
  by (simp add: example_def classcall_private_def normalized_M_def spanned_FreeModule_3
      classcall_def initial_def lookup_def)

lemma example_state:
  "example = \<lparr>instances = [\<lparr>self_M = (''QQ'', 3, [[1, 0, 0], [0, 1, 0], [0, 0, 1]]), self_ambient = 0,
      self_base = ''QQ'', self_category = FiniteDimensionalLieAlgebrasWithBasis ''QQ'',
      zero_cached = None\<rparr>],
    cache = [(''QQ'', None, (''QQ'', 3, [[1, 0, 0], [0, 1, 0], [0, 0, 1]]), None) \<mapsto> 0]\<rparr>"
  by (simp add: example_def classcall_private_def normalized_M_def spanned_FreeModule_3
      classcall_def initial_def)

lemma subalgebra_example:
  "fst (subalgebra spanned_modules 0
      [\<lparr>parent_of = 0, value_of = [2, 1, 0]\<rparr>, \<lparr>parent_of = 0, value_of = [0, 1, 1]\<rparr>] example) = Inr 1"
  by (simp add: subalgebra_def lookup_example spanned_subspace classcall_private_def
      normalized_M_def spanned_change_ring classcall_def)
     (simp add: example_state)

subsection \<open>Unique representation\<close>

lemma classcall_private_returns:
  assumes "normalized_M lib R n M = Inr N"
  shows "\<exists>a st'. classcall_private lib R n M amb st = (Inr a, st')
           \<and> classcall st (R, None, N, amb) = (a, st')"
  using assms by (cases "classcall st (R, None, N, amb)") (simp add: classcall_private_def)

lemma classcall_private_hit:
  assumes "normalized_M lib R n M = Inr N" and "cache st (R, None, N, amb) = Some A"
  shows "classcall_private lib R n M amb st = (Inr A, st)"
  using assms by (simp add: classcall_private_def classcall_def)

lemma classcall_private_cache_kept:
  assumes "classcall_private lib R n M amb st = (r, st')" and "cache st k = Some A"
  shows "cache st' k = Some A"
  using assms
  by (auto simp: classcall_private_def split: sum.splits prod.splits dest: classcall_cache_kept)

text \<open>
  C6. Two constructor calls whose arguments normalise to the same tuple return the same
  instance: the second is answered from the cache, and still is after any other
  constructor call. In particular, when \<^verbatim>\<open>FreeModule(R, k)\<close> is the module \<open>F\<close> and
  changing the ring of \<open>F\<close> to its own ring \<open>R\<close> gives \<open>F\<close>, the calls
  \<^verbatim>\<open>AbelianLieAlgebra(R, n=k)\<close>, \<^verbatim>\<open>AbelianLieAlgebra(R, M=F)\<close> and
  \<^verbatim>\<open>AbelianLieAlgebra(R, k, F)\<close> all normalise to \<open>(R, None, F, None)\<close> (\<open>n\<close> dropped,
  \<open>M\<close> filled in) and return one and the same instance.
\<close>

theorem unique_representation:
  "(normalized_M lib R n M = Inr N \<and> normalized_M lib R n' M' = Inr N \<longrightarrow>
      (\<exists>A st1. classcall_private lib R n M amb st = (Inr A, st1)
         \<and> classcall_private lib R n' M' amb st1 = (Inr A, st1)
         \<and> (\<forall>R2 n2 M2 amb2 r st2. classcall_private lib R2 n2 M2 amb2 st1 = (r, st2) \<longrightarrow>
              classcall_private lib R n' M' amb st2 = (Inr A, st2))))
   \<and> (FreeModule lib R (Some k) = Inr F \<and> change_ring lib F R = Inr F \<longrightarrow>
      normalized_M lib R (Some k) None = Inr F
      \<and> normalized_M lib R None (Some F) = Inr F
      \<and> normalized_M lib R (Some k) (Some F) = Inr F
      \<and> (\<exists>A st1. classcall_private lib R (Some k) None None st = (Inr A, st1)
           \<and> classcall_private lib R None (Some F) None st1 = (Inr A, st1)
           \<and> classcall_private lib R (Some k) (Some F) None st1 = (Inr A, st1)
           \<and> cache st1 (R, None, F, None) = Some A))"
proof (intro conjI impI)
  assume h: "normalized_M lib R n M = Inr N \<and> normalized_M lib R n' M' = Inr N"
  then have h1: "normalized_M lib R n M = Inr N" by simp
  from classcall_private_returns[OF h1] obtain A st1 where
    first: "classcall_private lib R n M amb st = (Inr A, st1)"
    and cc: "classcall st (R, None, N, amb) = (A, st1)"
    by blast
  from cc have cached: "cache st1 (R, None, N, amb) = Some A" by (rule classcall_cached)
  from h cached have second: "classcall_private lib R n' M' amb st1 = (Inr A, st1)"
    by (simp add: classcall_private_hit)
  have later: "classcall_private lib R n' M' amb st2 = (Inr A, st2)"
    if "classcall_private lib R2 n2 M2 amb2 st1 = (r, st2)" for R2 n2 M2 amb2 r st2
  proof -
    from that cached have "cache st2 (R, None, N, amb) = Some A"
      by (rule classcall_private_cache_kept)
    with h show ?thesis by (simp add: classcall_private_hit)
  qed
  from first second later
  show "\<exists>A st1. classcall_private lib R n M amb st = (Inr A, st1)
         \<and> classcall_private lib R n' M' amb st1 = (Inr A, st1)
         \<and> (\<forall>R2 n2 M2 amb2 r st2. classcall_private lib R2 n2 M2 amb2 st1 = (r, st2) \<longrightarrow>
              classcall_private lib R n' M' amb st2 = (Inr A, st2))"
    by blast
next
  assume h: "FreeModule lib R (Some k) = Inr F \<and> change_ring lib F R = Inr F"
  then show n1: "normalized_M lib R (Some k) None = Inr F"
    and n2: "normalized_M lib R None (Some F) = Inr F"
    and n3: "normalized_M lib R (Some k) (Some F) = Inr F"
    by (simp_all add: normalized_M_def)
  from classcall_private_returns[OF n1] obtain A st1 where
    first: "classcall_private lib R (Some k) None None st = (Inr A, st1)"
    and cc: "classcall st (R, None, F, None) = (A, st1)"
    by blast
  from cc have cached: "cache st1 (R, None, F, None) = Some A" by (rule classcall_cached)
  from n2 n3 cached first
  show "\<exists>A st1. classcall_private lib R (Some k) None None st = (Inr A, st1)
           \<and> classcall_private lib R None (Some F) None st1 = (Inr A, st1)
           \<and> classcall_private lib R (Some k) (Some F) None st1 = (Inr A, st1)
           \<and> cache st1 (R, None, F, None) = Some A"
    by (simp add: classcall_private_hit)
qed

theorem unique_representation_witness:
  "\<exists>A st1. classcall_private spanned_modules ''QQ'' (Some 2) None None initial = (Inr A, st1)
      \<and> classcall_private spanned_modules ''QQ'' None (Some (''QQ'', 2, [[1, 0], [0, 1]])) None st1
          = (Inr A, st1)
      \<and> classcall_private spanned_modules ''QQ'' (Some 2) (Some (''QQ'', 2, [[1, 0], [0, 1]])) None st1
          = (Inr A, st1)
      \<and> cache st1 (''QQ'', None, (''QQ'', 2, [[1, 0], [0, 1]]), None) = Some A"
  using unique_representation
    [of spanned_modules "''QQ''" "Some 2" None "(''QQ'', 2, [[1, 0], [0, 1]])" None
        "Some (''QQ'', 2, [[1, 0], [0, 1]])" None initial 2 "(''QQ'', 2, [[1, 0], [0, 1]])"]
    spanned_FreeModule_2 spanned_change_ring [of "''QQ''" 2 "[[1, 0], [0, 1]]" "''QQ''"]
  by simp

subsection \<open>The bracket\<close>

text \<open>
  C9. The bracket is constantly zero: for an element \<open>x\<close> of the algebra \<open>L\<close> and any
  \<open>y\<close>, \<open>x._bracket_(y)\<close> returns an element \<open>z\<close>, and \<open>L.zero()\<close> returns the same
  \<open>z\<close>, evaluated after the bracket as well as in its place; \<open>z\<close> is the zero vector of
  the module of \<open>L\<close> with parent \<open>L\<close>.
\<close>

theorem bracket_is_zero:
  assumes "wf lib st" and "lookup st L = Inr l" and "parent_of x = L"
  shows "\<exists>z st1. bracket lib x y st = (Inr z, st1)
           \<and> AbelianLieAlgebra_zero lib L st1 = (Inr z, st1)
           \<and> fst (AbelianLieAlgebra_zero lib L st) = Inr z
           \<and> z = \<lparr>parent_of = L, value_of = module_zero lib (self_M l)\<rparr>"
proof -
  let ?z = "\<lparr>parent_of = L, value_of = module_zero lib (self_M l)\<rparr>"
  from zero_returns[OF assms(1,2)] obtain st1 where
    first: "AbelianLieAlgebra_zero lib L st = (Inr ?z, st1)"
    and kept: "lookup st1 L = Inr (l\<lparr>zero_cached := Some ?z\<rparr>)"
    by blast
  from kept have again: "AbelianLieAlgebra_zero lib L st1 = (Inr ?z, st1)"
    by (simp add: AbelianLieAlgebra_zero_def)
  from first again assms(3) show ?thesis
    by (simp add: bracket_def)
qed

theorem bracket_is_zero_witness:
  "\<exists>st1. bracket spanned_modules \<lparr>parent_of = 0, value_of = [1, 0, 0]\<rparr>
        \<lparr>parent_of = 0, value_of = [0, 0, 1]\<rparr> example
        = (Inr \<lparr>parent_of = 0, value_of = [0, 0, 0]\<rparr>, st1)
      \<and> AbelianLieAlgebra_zero spanned_modules 0 st1
        = (Inr \<lparr>parent_of = 0, value_of = [0, 0, 0]\<rparr>, st1)"
  using bracket_is_zero [OF wf_example lookup_example,
      of "\<lparr>parent_of = 0, value_of = [1, 0, 0]\<rparr>" "\<lparr>parent_of = 0, value_of = [0, 0, 1]\<rparr>"]
  by (auto simp: spanned_module_zero_3)

subsection \<open>Subalgebras\<close>

text \<open>
  C10. When \<open>L.subalgebra(gens)\<close> returns \<open>S\<close>, then \<open>S.ambient()\<close> is \<open>L.ambient()\<close>,
  which is \<open>L\<close> itself when \<open>L\<close> is a top-level algebra (its category is not one of
  subobjects); \<open>S.base_ring()\<close> is \<open>L.base_ring()\<close>; and \<open>L\<close> is after the call what it
  was before.
\<close>

theorem subalgebra_ambient_and_base_ring:
  assumes "wf lib st" and "lookup st L = Inr l"
    and "subalgebra lib L gens st = (Inr S, st')"
  shows "ambient S st' = ambient L st'
       \<and> ambient S st' = Inr (self_ambient l)
       \<and> (self_category l = FiniteDimensionalLieAlgebrasWithBasis (self_base l) \<longrightarrow>
            ambient S st' = Inr L)
       \<and> algebra_base_ring S st' = algebra_base_ring L st'
       \<and> algebra_base_ring S st' = Inr (self_base l)
       \<and> lookup st' L = Inr l"
proof -
  from assms(2) have L: "L < length (instances st)" "instances st ! L = l"
    by (simp_all add: lookup_Inr)
  from assms(2,3) obtain N N' where
    N: "subspace lib (self_M l) (map value_of gens) = Inr N"
    and N': "normalized_M lib (self_base l) None (Some N) = Inr N'"
    and cc: "classcall st (self_base l, None, N', Some (self_ambient l)) = (S, st')"
    by (auto simp: subalgebra_def classcall_private_def split: sum.splits prod.splits)
  let ?k = "(self_base l, None, N', Some (self_ambient l))"
  from assms(1) cc have wf': "wf lib st'" by (rule wf_classcall)
  from cc have "cache st' ?k = Some S" by (rule classcall_cached)
  with wf' have S: "S < length (instances st')"
    and fields: "(instances st' ! S)\<lparr>zero_cached := None\<rparr> = AbelianLieAlgebra_init S ?k"
    unfolding wf_def by blast+
  from fields have "self_ambient ((instances st' ! S)\<lparr>zero_cached := None\<rparr>) = self_ambient l"
    and "self_base ((instances st' ! S)\<lparr>zero_cached := None\<rparr>) = self_base l"
    by simp_all
  then have Samb: "self_ambient (instances st' ! S) = self_ambient l"
    and Sbase: "self_base (instances st' ! S) = self_base l"
    by simp_all
  from classcall_instances_kept[OF cc L(1)] L(2)
  have L': "L < length (instances st')" "instances st' ! L = l" by simp_all
  have top: "self_ambient l = L"
    if cat: "self_category l = FiniteDimensionalLieAlgebrasWithBasis (self_base l)"
  proof -
    from assms(1) L(1) obtain k where k: "cache st k = Some L"
      unfolding wf_def by blast
    with assms(1) L(2) have eq: "l\<lparr>zero_cached := None\<rparr> = AbelianLieAlgebra_init L k"
      unfolding wf_def by blast
    obtain R n M amb where kk: "k = (R, n, M, amb)" by (cases k)
    from eq kk have init: "l\<lparr>zero_cached := None\<rparr> = AbelianLieAlgebra_init L (R, n, M, amb)"
      by simp
    from arg_cong [OF init, of self_ambient]
    have amb_eq: "self_ambient l =
        self_ambient (AbelianLieAlgebra_init L (R, n, M, amb) :: ('a, 'b, 'c) lie_algebra)"
      by simp
    from arg_cong [OF init, of self_category]
    have "self_category l =
        self_category (AbelianLieAlgebra_init L (R, n, M, amb) :: ('a, 'b, 'c) lie_algebra)"
      by simp
    with cat have "amb = None" by (cases amb) simp_all
    with amb_eq show ?thesis by simp
  qed
  from S Samb Sbase L' top show ?thesis
    by (simp add: ambient_def algebra_base_ring_def lookup_def)
qed

theorem subalgebra_ambient_and_base_ring_witness:
  "fst (subalgebra spanned_modules 0
      [\<lparr>parent_of = 0, value_of = [2, 1, 0]\<rparr>, \<lparr>parent_of = 0, value_of = [0, 1, 1]\<rparr>] example) = Inr 1
   \<and> ambient 1 (snd (subalgebra spanned_modules 0
      [\<lparr>parent_of = 0, value_of = [2, 1, 0]\<rparr>, \<lparr>parent_of = 0, value_of = [0, 1, 1]\<rparr>] example)) = Inr 0
   \<and> algebra_base_ring 1 (snd (subalgebra spanned_modules 0
      [\<lparr>parent_of = 0, value_of = [2, 1, 0]\<rparr>, \<lparr>parent_of = 0, value_of = [0, 1, 1]\<rparr>] example)) = Inr ''QQ''
   \<and> lookup (snd (subalgebra spanned_modules 0
      [\<lparr>parent_of = 0, value_of = [2, 1, 0]\<rparr>, \<lparr>parent_of = 0, value_of = [0, 1, 1]\<rparr>] example)) 0
     = lookup example 0"
proof -
  let ?gens = "[\<lparr>parent_of = 0, value_of = [2, 1, 0]\<rparr>, \<lparr>parent_of = 0, value_of = [0, 1, 1 :: int]\<rparr>]"
  let ?st' = "snd (subalgebra spanned_modules 0 ?gens example)"
  have run: "subalgebra spanned_modules 0 ?gens example = (Inr 1, ?st')"
    using subalgebra_example by (metis prod.collapse)
  note kept = subalgebra_ambient_and_base_ring [OF wf_example lookup_example run]
  from kept [THEN conjunct2, THEN conjunct1]
  have amb: "ambient 1 ?st' = Inr 0" by simp
  from kept [THEN conjunct2, THEN conjunct2, THEN conjunct2, THEN conjunct2, THEN conjunct1]
  have base: "algebra_base_ring 1 ?st' = Inr ''QQ''" by simp
  from kept [THEN conjunct2, THEN conjunct2, THEN conjunct2, THEN conjunct2, THEN conjunct2]
  have same: "lookup ?st' 0 = lookup example 0" by (simp add: lookup_example)
  from subalgebra_example amb base same show ?thesis by blast
qed

text \<open>The call returns whenever the library's \<open>subspace\<close> and \<open>change_ring\<close> do.\<close>

lemma subalgebra_returns:
  assumes "lookup st L = Inr l"
    and "subspace lib (self_M l) (map value_of gens) = Inr N"
    and "change_ring lib N (self_base l) = Inr N'"
  shows "\<exists>S st'. subalgebra lib L gens st = (Inr S, st')"
proof -
  from assms(3) have "normalized_M lib (self_base l) None (Some N) = Inr N'"
    by (simp add: normalized_M_def)
  from classcall_private_returns[OF this] assms(1,2) show ?thesis
    by (fastforce simp: subalgebra_def)
qed

end
